theory Spec2Isabelle
  imports Main
begin

section \<open>Numbers and strings of the host language\<close>

text \<open>
  The screen formats durations and builds names, ids and file paths with
  \<^verbatim>\<open>Number.prototype.toString\<close>, \<^verbatim>\<open>String.prototype.padStart\<close> and the remainder
  operator \<^verbatim>\<open>%\<close>. All numbers that reach them are integers (clock readings in
  milliseconds, list lengths, and quotients passed through \<^verbatim>\<open>Math.floor\<close>), far below
  the range where a double stops being exact or is printed with an exponent, so they
  are modelled as \<^typ>\<open>int\<close>.
\<close>

definition digit_char :: "nat \<Rightarrow> char" where
  "digit_char d = ''0123456789'' ! d"

function digits :: "nat \<Rightarrow> string" where
  "digits n = (if n < 10 then [digit_char n] else digits (n div 10) @ [digit_char (n mod 10)])"
  by pat_completeness auto
termination
  by (relation "measure (\<lambda>n. n)") auto

declare digits.simps [simp del]

definition toString :: "int \<Rightarrow> string" where
  \<comment> \<open>decimal rendering of an integer-valued number: a minus sign, then the digits\<close>
  "toString k = (if k < 0 then CHR ''-'' # digits (nat (- k)) else digits (nat k))"

definition padStart :: "nat \<Rightarrow> char \<Rightarrow> string \<Rightarrow> string" where
  \<comment> \<open>\<^verbatim>\<open>s.padStart(n, c)\<close> with a one-character pad string\<close>
  "padStart n c s = replicate (n - length s) c @ s"

definition js_rem :: "int \<Rightarrow> int \<Rightarrow> int" where
  \<comment> \<open>the operator \<^verbatim>\<open>%\<close>: the remainder takes the sign of the dividend\<close>
  "js_rem a b = sgn a * (\<bar>a\<bar> mod \<bar>b\<bar>)"

section \<open>formatTime\<close>

text \<open>
  \<^verbatim>\<open>
  const formatTime = (milliseconds: number): string => {
    const totalSeconds = Math.floor(milliseconds / 1000);
    const minutes = Math.floor(totalSeconds / 60);
    const seconds = totalSeconds % 60;
    return `${minutes.toString().padStart(2, '0')}:${seconds.toString().padStart(2, '0')}`;
  };
  \<close>
  On integers \<^verbatim>\<open>Math.floor(a / b)\<close> is the flooring quotient, which is \<open>div\<close> on
  \<^typ>\<open>int\<close>.
\<close>

definition formatTime :: "int \<Rightarrow> string" where
  "formatTime milliseconds =
     (let totalSeconds = milliseconds div 1000;
          minutes = totalSeconds div 60;
          seconds = js_rem totalSeconds 60
      in padStart 2 (CHR ''0'') (toString minutes) @ '':'' @ padStart 2 (CHR ''0'') (toString seconds))"

subsection \<open>Reading a formatted time back\<close>






section \<open>The screen's state\<close>

text \<open>
  The repository holds two versions of the recordings screen: the one with the bottom
  sheet and the 500 ms duration timer (the longer file), and
  \<^verbatim>\<open>src/screens/RecordingsScreen.tsx\<close>, which has neither. They share \<^verbatim>\<open>formatTime\<close>,
  \<^verbatim>\<open>requestPermissions\<close> and \<^verbatim>\<open>playRecording\<close> word for word and differ in
  \<^verbatim>\<open>startRecording\<close> and \<^verbatim>\<open>stopRecording\<close>. The unsuffixed definitions below follow the
  version with the timer; the two that differ in the other file carry the suffix
  \<open>_screen\<close>.
\<close>

record RecordingItem =
  id_item :: string
  name :: string
  duration :: string
  path :: string
  date :: string
  isPlaying :: "bool option"

datatype engine_call =
    StartRecorder string
  | StopRecorder
  | StartPlayer string
  | StopPlayer
  | AddPlayBackListener
  | RemovePlayBackListener

text \<open>
  The first nine fields are the component's \<^verbatim>\<open>useState\<close> cells and its \<^verbatim>\<open>timerRef\<close>.
  The others are the world the handlers act on: the intervals created by
  \<^verbatim>\<open>setInterval\<close> and not yet cleared (handle, the \<^verbatim>\<open>startTime\<close> their callback
  closes over, and the period in milliseconds), the next handle \<^verbatim>\<open>setInterval\<close> hands out, whether the sound module
  holds a playback listener, the calls made to the sound module in order, and the
  alerts shown. Animations and console output are left out.
\<close>

record screen =
  recordings :: "RecordingItem list"
  isRecording :: bool
  isLoading :: bool
  currentRecordingPath :: "string option"
  currentlyPlayingId :: "string option"
  recordingStartTime :: "int option"
  isRecordingSheetVisible :: bool
  recordingDuration :: string
  timerRef :: "nat option"
  intervals :: "(nat \<times> int \<times> int) list"
  nextHandle :: nat
  playBackListener :: bool
  engineCalls :: "engine_call list"
  alerts :: "(string \<times> string) list"

definition initial :: screen where
  "initial =
     \<lparr>recordings = [], isRecording = False, isLoading = False,
      currentRecordingPath = None, currentlyPlayingId = None, recordingStartTime = None,
      isRecordingSheetVisible = False, recordingDuration = ''00:00'', timerRef = None,
      intervals = [], nextHandle = 1, playBackListener = False, engineCalls = [],
      alerts = []\<rparr>"

definition truthy :: "string option \<Rightarrow> bool" where
  \<comment> \<open>a \<^verbatim>\<open>string | null\<close> in a condition: \<^verbatim>\<open>null\<close> and the empty string are false\<close>
  "truthy v = (case v of None \<Rightarrow> False | Some t \<Rightarrow> t \<noteq> [])"

definition alert :: "string \<Rightarrow> string \<Rightarrow> screen \<Rightarrow> screen" where
  "alert title message s = s\<lparr>alerts := alerts s @ [(title, message)]\<rparr>"

definition call :: "engine_call \<Rightarrow> screen \<Rightarrow> screen" where
  "call c s = s\<lparr>engineCalls := engineCalls s @ [c]\<rparr>"

definition clearInterval :: "nat \<Rightarrow> screen \<Rightarrow> screen" where
  "clearInterval h s = s\<lparr>intervals := filter (\<lambda>t. fst t \<noteq> h) (intervals s)\<rparr>"

definition setInterval :: "int \<Rightarrow> int \<Rightarrow> screen \<Rightarrow> nat \<times> screen" where
  \<comment> \<open>handles are positive numbers, so a stored handle is true in a condition\<close>
  "setInterval startTime period s =
     (nextHandle s,
      s\<lparr>intervals := intervals s @ [(nextHandle s, startTime, period)],
        nextHandle := Suc (nextHandle s)\<rparr>)"

section \<open>What the handlers are given\<close>

text \<open>
  Each handler is one step: it starts from the state of the render that created it,
  every promise it awaits settles, and its state updates are in place before the next
  event. What the handler cannot decide itself comes with the call: the platform, the
  reply to the permission request, the directories of the file-system module, the
  readings of \<^verbatim>\<open>Date.now()\<close> in the order they are taken, the text of
  \<^verbatim>\<open>new Date().toLocaleString()\<close>, and whether each promise of the sound module
  resolves or rejects.
\<close>

datatype platform = Android | IOS | OtherOS

datatype permission_reply = Granted | NotGranted | RequestThrew

record start_env =
  os :: platform
  reply :: permission_reply
  documentDirectoryPath :: string
  externalDirectoryPath :: string
  now_timestamp :: int
  now_started :: int
  now_timer :: int
  startRecorder_ok :: bool

record stop_env =
  stopRecorder_ok :: bool
  now_elapsed :: int
  now_id :: int
  localeString :: string

record play_env =
  stopPlayer_ok :: bool
  startPlayer_ok :: bool

section \<open>Permissions\<close>

definition requestPermissions :: "start_env \<Rightarrow> screen \<Rightarrow> bool \<times> screen" where
  "requestPermissions e s =
     (if os e = Android then
        (case reply e of
           Granted \<Rightarrow> (True, s)
         | NotGranted \<Rightarrow>
             (False, alert ''Permissions Required'' ''Audio recording permissions are required'' s)
         | RequestThrew \<Rightarrow> (False, s))
      else (True, s))"

section \<open>Recording\<close>

definition showRecordingSheet :: "screen \<Rightarrow> screen" where
  "showRecordingSheet s = s\<lparr>isRecordingSheetVisible := True\<rparr>"

definition hideRecordingSheet :: "screen \<Rightarrow> screen" where
  \<comment> \<open>the flag is reset when the 300 ms slide has run; the slide is not modelled\<close>
  "hideRecordingSheet s = s\<lparr>isRecordingSheetVisible := False\<rparr>"

definition recordingPath :: "start_env \<Rightarrow> string" where
  "recordingPath e =
     (if os e = IOS then documentDirectoryPath e else externalDirectoryPath e)
       @ ''/recording_'' @ toString (now_timestamp e) @ ''.m4a''"

definition startRecording :: "screen \<Rightarrow> start_env \<Rightarrow> screen" where
  "startRecording s e =
     (let (hasPermissions, s0) = requestPermissions e s in
      if \<not> hasPermissions then s0
      else
        let s1 = call (StartRecorder (recordingPath e)) (s0\<lparr>isLoading := True\<rparr>) in
        if \<not> startRecorder_ok e then
          (alert ''Error'' ''Failed to start recording'' s1)\<lparr>isLoading := False\<rparr>
        else
          let s2 = s1\<lparr>isRecording := True,
                     currentRecordingPath := Some (recordingPath e),
                     recordingStartTime := Some (now_started e),
                     recordingDuration := ''00:00''\<rparr>;
              s3 = (case timerRef s2 of None \<Rightarrow> s2 | Some h \<Rightarrow> clearInterval h s2);
              startTime = now_timer e;
              s4 = s3\<lparr>recordingStartTime := Some startTime\<rparr>;
              (h, s5) = setInterval startTime 500 s4;
              s6 = showRecordingSheet (s5\<lparr>timerRef := Some h\<rparr>)
          in s6\<lparr>isLoading := False\<rparr>)"

definition tick :: "nat \<Rightarrow> int \<Rightarrow> screen \<Rightarrow> screen" where
  \<comment> \<open>the callback of interval \<open>h\<close> runs while \<^verbatim>\<open>Date.now()\<close> reads \<open>now\<close>\<close>
  "tick h now s =
     (case map_of (intervals s) h of
        None \<Rightarrow> s
      | Some (startTime, period) \<Rightarrow>
          s\<lparr>recordingDuration := formatTime (now - startTime)\<rparr>)"

definition stopRecording :: "screen \<Rightarrow> stop_env \<Rightarrow> screen" where
  "stopRecording s e =
     (case currentRecordingPath s of
        None \<Rightarrow> s
      | Some p \<Rightarrow>
          if \<not> isRecording s \<or> p = [] then s
          else
            let s1 = call StopRecorder (s\<lparr>isLoading := True\<rparr>) in
            if \<not> stopRecorder_ok e then
              (alert ''Error'' ''Failed to stop recording'' s1)\<lparr>isLoading := False\<rparr>
            else
              let s2 = s1\<lparr>isRecording := False\<rparr>;
                  finalDuration = recordingDuration s;
                  s3 = (case timerRef s2 of
                          None \<Rightarrow> s2
                        | Some h \<Rightarrow> (clearInterval h s2)\<lparr>timerRef := None\<rparr>);
                  s4 = hideRecordingSheet s3;
                  s5 = s4\<lparr>recordingStartTime := None\<rparr>;
                  newRecording =
                    \<lparr>id_item = toString (now_id e),
                     name = ''Recording '' @ toString (int (length (recordings s)) + 1),
                     duration = finalDuration,
                     path = p,
                     date = localeString e,
                     isPlaying = Some False\<rparr>;
                  s6 = s5\<lparr>recordings := recordings s @ [newRecording],
                           currentRecordingPath := None\<rparr>
              in s6\<lparr>isLoading := False\<rparr>)"

subsection \<open>The version without the timer\<close>

definition startRecording_screen :: "screen \<Rightarrow> start_env \<Rightarrow> screen" where
  "startRecording_screen s e =
     (let (hasPermissions, s0) = requestPermissions e s in
      if \<not> hasPermissions then s0
      else
        let s1 = call (StartRecorder (recordingPath e)) (s0\<lparr>isLoading := True\<rparr>) in
        if \<not> startRecorder_ok e then
          (alert ''Error'' ''Failed to start recording'' s1)\<lparr>isLoading := False\<rparr>
        else
          s1\<lparr>isRecording := True,
              currentRecordingPath := Some (recordingPath e),
              recordingStartTime := Some (now_started e),
              isLoading := False\<rparr>)"

definition stopRecording_screen :: "screen \<Rightarrow> stop_env \<Rightarrow> screen" where
  "stopRecording_screen s e =
     (case currentRecordingPath s of
        None \<Rightarrow> s
      | Some p \<Rightarrow>
          if \<not> isRecording s \<or> p = [] then s
          else
            let s1 = call StopRecorder (s\<lparr>isLoading := True\<rparr>) in
            if \<not> stopRecorder_ok e then
              (alert ''Error'' ''Failed to stop recording'' s1)\<lparr>isLoading := False\<rparr>
            else
              let s2 = s1\<lparr>isRecording := False\<rparr>;
                  (duration0, s3) =
                    (case recordingStartTime s of
                       None \<Rightarrow> (''00:00'', s2)
                     | Some t \<Rightarrow>
                         if t = 0 then (''00:00'', s2)
                         else (formatTime (now_elapsed e - t), s2\<lparr>recordingStartTime := None\<rparr>));
                  newRecording =
                    \<lparr>id_item = toString (now_id e),
                     name = ''Recording '' @ toString (int (length (recordings s)) + 1),
                     duration = duration0,
                     path = p,
                     date = localeString e,
                     isPlaying = Some False\<rparr>;
                  s4 = s3\<lparr>recordings := recordings s @ [newRecording],
                           currentRecordingPath := None\<rparr>
              in s4\<lparr>isLoading := False\<rparr>)"

section \<open>Playback\<close>

definition playFailed :: "screen \<Rightarrow> screen" where
  \<comment> \<open>the \<^verbatim>\<open>catch\<close> and \<^verbatim>\<open>finally\<close> blocks of \<^verbatim>\<open>playRecording\<close>\<close>
  "playFailed s =
     (alert ''Error'' ''Failed to play recording'' s)\<lparr>currentlyPlayingId := None, isLoading := False\<rparr>"

definition playStart :: "screen \<Rightarrow> RecordingItem \<Rightarrow> play_env \<Rightarrow> screen" where
  \<comment> \<open>\<^verbatim>\<open>playRecording\<close> from "Mark this item as playing" on\<close>
  "playStart s item e =
     (let s1 = call (StartPlayer (path item)) (s\<lparr>currentlyPlayingId := Some (id_item item)\<rparr>) in
      if \<not> startPlayer_ok e then playFailed s1
      else (call AddPlayBackListener s1)\<lparr>playBackListener := True, isLoading := False\<rparr>)"

definition playRecording :: "screen \<Rightarrow> RecordingItem \<Rightarrow> play_env \<Rightarrow> screen" where
  "playRecording s item e =
     (let s1 = s\<lparr>isLoading := True\<rparr> in
      if truthy (currentlyPlayingId s) then
        let s2 = call StopPlayer s1 in
        if \<not> stopPlayer_ok e then playFailed s2
        else
          let s3 = (call RemovePlayBackListener s2)\<lparr>playBackListener := False\<rparr> in
          if currentlyPlayingId s = Some (id_item item) then
            s3\<lparr>currentlyPlayingId := None, isLoading := False\<rparr>
          else playStart s3 item e
      else playStart s1 item e)"

definition onPlayBack :: "int \<Rightarrow> int \<Rightarrow> screen \<Rightarrow> screen" where
  \<comment> \<open>the listener given to \<^verbatim>\<open>addPlayBackListener\<close>, on an event with these two fields\<close>
  "onPlayBack currentPosition duration0 s =
     (if currentPosition = duration0 then
        (call RemovePlayBackListener (call StopPlayer s))
          \<lparr>playBackListener := False, currentlyPlayingId := None\<rparr>
      else s)"

section \<open>Events\<close>

text \<open>
  The round button calls \<^verbatim>\<open>isRecording ? stopRecording : startRecording\<close> and is disabled
  while \<^verbatim>\<open>isLoading\<close>; the sheet's button, drawn while the sheet is visible, calls
  \<^verbatim>\<open>stopRecording\<close>; each row of the list calls \<^verbatim>\<open>playRecording\<close> with its item. Timers
  and the sound module deliver the other two events. Which view receives a touch while
  the sheet's overlay is drawn over the list is a matter of layout and is not
  modelled: a press on a row or on the round button is accepted in every state. No
  handler rejects: each wraps its calls in \<^verbatim>\<open>try\<close> and \<^verbatim>\<open>catch\<close> and reports a failure
  with an alert.
\<close>

datatype event =
    PressRecord start_env stop_env
  | PressSheetStop stop_env
  | PressItem nat play_env
  | TimerFires nat int
  | PlayBackEvent int int

definition toggleRecording :: "screen \<Rightarrow> start_env \<Rightarrow> stop_env \<Rightarrow> screen" where
  "toggleRecording s e1 e2 = (if isRecording s then stopRecording s e2 else startRecording s e1)"

fun step :: "screen \<Rightarrow> event \<Rightarrow> screen" where
  "step s (PressRecord e1 e2) = (if isLoading s then s else toggleRecording s e1 e2)"
| "step s (PressSheetStop e) = (if isRecordingSheetVisible s then stopRecording s e else s)"
| "step s (PressItem i e) = (if i < length (recordings s) then playRecording s (recordings s ! i) e else s)"
| "step s (TimerFires h now) = tick h now s"
| "step s (PlayBackEvent p d) = (if playBackListener s then onPlayBack p d s else s)"

definition run :: "screen \<Rightarrow> event list \<Rightarrow> screen" where
  "run s evs = foldl step s evs"

section \<open>Well-formed states\<close>

text \<open>
  What every state reached from the initial one satisfies; the proofs below carry it
  along a run. No handler is in flight between two events; \<^verbatim>\<open>timerRef\<close> holds the
  handle of the one live interval exactly while a recording is active; an active
  recording has a path; ids are never empty.
\<close>

definition well_formed :: "screen \<Rightarrow> bool" where
  "well_formed s =
     (\<not> isLoading s
      \<and> (case timerRef s of
           None \<Rightarrow> intervals s = [] \<and> \<not> isRecording s
         | Some h \<Rightarrow> isRecording s \<and> map fst (intervals s) = [h])
      \<and> (isRecording s \<longrightarrow> truthy (currentRecordingPath s) \<and> isRecordingSheetVisible s)
      \<and> list_all (\<lambda>r. id_item r \<noteq> []) (recordings s)
      \<and> (currentlyPlayingId s = None \<or> truthy (currentlyPlayingId s)))"

section \<open>Sample inputs\<close>

definition sample_start :: start_env where
  "sample_start =
     \<lparr>os = IOS, reply = Granted, documentDirectoryPath = ''/docs'',
      externalDirectoryPath = ''/ext'', now_timestamp = 1000, now_started = 1001,
      now_timer = 1002, startRecorder_ok = True\<rparr>"

definition sample_stop :: stop_env where
  "sample_stop =
     \<lparr>stopRecorder_ok = True, now_elapsed = 6200, now_id = 6201, localeString = ''today''\<rparr>"

definition sample_play :: play_env where
  "sample_play = \<lparr>stopPlayer_ok = True, startPlayer_ok = True\<rparr>"

definition sample_item :: "string \<Rightarrow> RecordingItem" where
  "sample_item i =
     \<lparr>id_item = i, name = ''Recording 1'', duration = ''00:05'',
      path = ''/docs/recording_'' @ i @ ''.m4a'', date = ''today'', isPlaying = Some False\<rparr>"

definition sample_session :: "event list" where
  "sample_session =
     [PressRecord sample_start sample_stop, TimerFires 1 6002, PressRecord sample_start sample_stop]"

definition sample_second_session :: "event list" where
  "sample_second_session =
     [PressRecord sample_start sample_stop,
      PressRecord sample_start (sample_stop\<lparr>now_id := 9000\<rparr>)]"

section \<open>Properties of formatTime\<close>




lemma digits_nonempty: "digits n \<noteq> []"
  by (subst digits.simps) simp













section \<open>Invariants of a run\<close>

lemma toString_nonempty: "toString k \<noteq> []"
  unfolding toString_def by (subst digits.simps, subst (2) digits.simps) simp

lemma recordingPath_nonempty: "recordingPath e \<noteq> []"
  by (simp add: recordingPath_def)

lemmas handler_defs =
  requestPermissions_def alert_def call_def clearInterval_def setInterval_def
  showRecordingSheet_def hideRecordingSheet_def playFailed_def playStart_def

lemma well_formed_initial: "well_formed initial"
  by (simp add: well_formed_def initial_def)

lemma well_formed_startRecording: "well_formed s \<Longrightarrow> well_formed (startRecording s e)"
  by (auto simp: well_formed_def startRecording_def handler_defs Let_def truthy_def
        recordingPath_nonempty
      split: permission_reply.splits option.splits)

lemma well_formed_stopRecording: "well_formed s \<Longrightarrow> well_formed (stopRecording s e)"
  by (auto simp: well_formed_def stopRecording_def handler_defs Let_def truthy_def
        toString_nonempty
      split: option.splits)

lemma well_formed_playRecording:
  "well_formed s \<Longrightarrow> id_item item \<noteq> [] \<Longrightarrow> well_formed (playRecording s item e)"
  by (auto simp: well_formed_def playRecording_def handler_defs Let_def truthy_def
      split: option.splits)

lemma well_formed_tick: "well_formed s \<Longrightarrow> well_formed (tick h now s)"
  by (auto simp: well_formed_def tick_def split: option.splits)

lemma well_formed_onPlayBack: "well_formed s \<Longrightarrow> well_formed (onPlayBack p d s)"
  by (auto simp: well_formed_def onPlayBack_def handler_defs split: option.splits)

lemma well_formed_step:
  assumes "well_formed s"
  shows "well_formed (step s ev)"
proof (cases ev)
  case (PressItem i e)
  show ?thesis
  proof (cases "i < length (recordings s)")
    case True
    with assms have "id_item (recordings s ! i) \<noteq> []"
      by (simp add: well_formed_def list_all_length)
    with assms True PressItem show ?thesis
      by (simp add: well_formed_playRecording)
  next
    case False
    with assms PressItem show ?thesis by simp
  qed
qed (simp_all add: assms toggleRecording_def well_formed_startRecording
       well_formed_stopRecording well_formed_tick well_formed_onPlayBack)

lemma well_formed_run: "well_formed s \<Longrightarrow> well_formed (run s evs)"
  unfolding run_def by (induction evs arbitrary: s) (simp_all add: well_formed_step)

lemma well_formed_reachable: "well_formed (run initial evs)"
  by (rule well_formed_run [OF well_formed_initial])

lemma well_formed_timer:
  assumes "well_formed s"
  shows "isRecording s \<longleftrightarrow> intervals s \<noteq> []"
    and "length (intervals s) \<le> 1"
    and "isRecording s \<longleftrightarrow> timerRef s \<noteq> None"
  using assms
  by (cases "timerRef s"; auto simp: well_formed_def dest: arg_cong [where f = length])+

lemma run_append: "run s (xs @ ys) = run (run s xs) ys"
  by (simp add: run_def)

section \<open>What a successful start, a tick and a successful stop do\<close>

lemma tick_live:
  "map_of (intervals s) h = Some (t, p) \<Longrightarrow>
     tick h now s = s\<lparr>recordingDuration := formatTime (now - t)\<rparr>"
  by (simp add: tick_def)

lemma run_ticks:
  "map_of (intervals s) h = Some (t, p) \<Longrightarrow>
     run s (map (TimerFires h) nows) =
       s\<lparr>recordingDuration :=
           (if nows = [] then recordingDuration s else formatTime (last nows - t))\<rparr>"
proof (induction nows arbitrary: s)
  case Nil
  then show ?case by (simp add: run_def)
next
  case (Cons now nows)
  let ?s1 = "s\<lparr>recordingDuration := formatTime (now - t)\<rparr>"
  have a: "tick h now s = ?s1" using Cons.prems by (rule tick_live)
  have b: "map_of (intervals ?s1) h = Some (t, p)" using Cons.prems by simp
  have "run s (map (TimerFires h) (now # nows)) = run ?s1 (map (TimerFires h) nows)"
    by (simp add: run_def a)
  also have "\<dots> = ?s1\<lparr>recordingDuration :=
      (if nows = [] then recordingDuration ?s1 else formatTime (last nows - t))\<rparr>"
    by (rule Cons.IH [OF b])
  finally show ?case by simp
qed

lemma startRecording_ok:
  assumes "well_formed s" and "fst (requestPermissions e s)" and "startRecorder_ok e"
  shows "intervals (startRecording s e) = [(nextHandle s, now_timer e, 500)]"
    and "timerRef (startRecording s e) = Some (nextHandle s)"
    and "isRecording (startRecording s e)"
    and "currentRecordingPath (startRecording s e) = Some (recordingPath e)"
    and "recordings (startRecording s e) = recordings s"
    and "recordingDuration (startRecording s e) = ''00:00''"
  using assms
  by (auto simp: well_formed_def startRecording_def handler_defs Let_def
      split: permission_reply.splits option.splits if_splits)

lemma stopRecording_ok:
  assumes "isRecording s" and "currentRecordingPath s = Some p" and "p \<noteq> []"
    and "stopRecorder_ok e"
  shows "recordings (stopRecording s e) = recordings s @
           [\<lparr>id_item = toString (now_id e),
             name = ''Recording '' @ toString (int (length (recordings s)) + 1),
             duration = recordingDuration s, path = p, date = localeString e,
             isPlaying = Some False\<rparr>]"
  using assms
  by (simp add: stopRecording_def handler_defs Let_def split: option.splits)

lemma last_punctual: "0 < n \<Longrightarrow> last (map f [1..<Suc n]) = f n"
  by (simp add: last_map)

section \<open>The sample inputs, evaluated\<close>

lemma sample_numbers:
  "toString 6201 = ''6201''" "toString 9000 = ''9000''" "toString 1000 = ''1000''"
  "toString 1 = ''1''" "toString 2 = ''2''"
  by (simp_all add: toString_def digits.simps digit_char_def)

lemma sample_times:
  "formatTime 5000 = ''00:05''" "formatTime 1000 = ''00:01''" "formatTime 0 = ''00:00''"
  by code_simp+

lemmas sample_defs =
  run_def toggleRecording_def startRecording_def stopRecording_def playRecording_def
  tick_def onPlayBack_def handler_defs recordingPath_def truthy_def Let_def
  initial_def sample_start_def sample_stop_def sample_play_def
  sample_numbers sample_times

lemma sample_recording_state:
  "run initial [PressRecord sample_start sample_stop] =
     \<lparr>recordings = [], isRecording = True, isLoading = False,
      currentRecordingPath = Some ''/docs/recording_1000.m4a'',
      currentlyPlayingId = None, recordingStartTime = Some 1002,
      isRecordingSheetVisible = True, recordingDuration = ''00:00'',
      timerRef = Some 1, intervals = [(1, 1002, 500)], nextHandle = 2,
      playBackListener = False,
      engineCalls = [StartRecorder ''/docs/recording_1000.m4a''],
      alerts = []\<rparr>"
  by (simp add: sample_defs)

lemma sample_session_state:
  "run initial sample_session =
     \<lparr>recordings =
        [\<lparr>id_item = ''6201'', name = ''Recording 1'', duration = ''00:05'',
          path = ''/docs/recording_1000.m4a'', date = ''today'', isPlaying = Some False\<rparr>],
      isRecording = False, isLoading = False, currentRecordingPath = None,
      currentlyPlayingId = None, recordingStartTime = None,
      isRecordingSheetVisible = False, recordingDuration = ''00:05'',
      timerRef = None, intervals = [], nextHandle = 2, playBackListener = False,
      engineCalls = [StartRecorder ''/docs/recording_1000.m4a'', StopRecorder],
      alerts = []\<rparr>"
  by (simp add: sample_session_def sample_defs)

lemma sample_playing_state:
  "run initial (sample_session @ [PressItem 0 sample_play]) =
     \<lparr>recordings =
        [\<lparr>id_item = ''6201'', name = ''Recording 1'', duration = ''00:05'',
          path = ''/docs/recording_1000.m4a'', date = ''today'', isPlaying = Some False\<rparr>],
      isRecording = False, isLoading = False, currentRecordingPath = None,
      currentlyPlayingId = Some ''6201'', recordingStartTime = None,
      isRecordingSheetVisible = False, recordingDuration = ''00:05'',
      timerRef = None, intervals = [], nextHandle = 2, playBackListener = True,
      engineCalls = [StartRecorder ''/docs/recording_1000.m4a'', StopRecorder,
                     StartPlayer ''/docs/recording_1000.m4a'', AddPlayBackListener],
      alerts = []\<rparr>"
  unfolding run_append sample_session_state by (simp add: sample_defs)

lemma sample_two_records_state:
  "run initial (sample_session @ sample_second_session) =
     \<lparr>recordings =
        [\<lparr>id_item = ''6201'', name = ''Recording 1'', duration = ''00:05'',
          path = ''/docs/recording_1000.m4a'', date = ''today'', isPlaying = Some False\<rparr>,
         \<lparr>id_item = ''9000'', name = ''Recording 2'', duration = ''00:00'',
          path = ''/docs/recording_1000.m4a'', date = ''today'', isPlaying = Some False\<rparr>],
      isRecording = False, isLoading = False, currentRecordingPath = None,
      currentlyPlayingId = None, recordingStartTime = None,
      isRecordingSheetVisible = False, recordingDuration = ''00:00'',
      timerRef = None, intervals = [], nextHandle = 3, playBackListener = False,
      engineCalls = [StartRecorder ''/docs/recording_1000.m4a'', StopRecorder,
                     StartRecorder ''/docs/recording_1000.m4a'', StopRecorder],
      alerts = []\<rparr>"
  unfolding run_append sample_session_state
  by (simp add: sample_second_session_def sample_defs)

section \<open>Each session's handlers and the other session's field\<close>

lemma startRecording_playing:
  "startRecording (s\<lparr>currentlyPlayingId := p\<rparr>) e = (startRecording s e)\<lparr>currentlyPlayingId := p\<rparr>"
  by (simp add: startRecording_def handler_defs Let_def
      split: option.splits permission_reply.splits)

lemma stopRecording_playing:
  "stopRecording (s\<lparr>currentlyPlayingId := p\<rparr>) e = (stopRecording s e)\<lparr>currentlyPlayingId := p\<rparr>"
  by (simp add: stopRecording_def handler_defs Let_def split: option.splits)

lemma startRecording_screen_playing:
  "startRecording_screen (s\<lparr>currentlyPlayingId := p\<rparr>) e
     = (startRecording_screen s e)\<lparr>currentlyPlayingId := p\<rparr>"
  by (simp add: startRecording_screen_def handler_defs Let_def
      split: permission_reply.splits)

lemma stopRecording_screen_playing:
  "stopRecording_screen (s\<lparr>currentlyPlayingId := p\<rparr>) e
     = (stopRecording_screen s e)\<lparr>currentlyPlayingId := p\<rparr>"
  by (simp add: stopRecording_screen_def handler_defs Let_def split: option.splits)

lemma tick_playing:
  "tick h now (s\<lparr>currentlyPlayingId := p\<rparr>) = (tick h now s)\<lparr>currentlyPlayingId := p\<rparr>"
  by (simp add: tick_def split: option.splits)

lemma playRecording_recording:
  "playRecording (s\<lparr>isRecording := r\<rparr>) item e = (playRecording s item e)\<lparr>isRecording := r\<rparr>"
  by (simp add: playRecording_def handler_defs Let_def)

lemma onPlayBack_recording:
  "onPlayBack c d (s\<lparr>isRecording := r\<rparr>) = (onPlayBack c d s)\<lparr>isRecording := r\<rparr>"
  by (simp add: onPlayBack_def handler_defs)

section \<open>Recording and playback together\<close>

text \<open>
  Claim C1, as the code has it. Nothing in the screen keeps a recording and a playback
  apart. The recording handlers (start, stop, the timer's callback) neither read nor
  write \<open>currentlyPlayingId\<close>, and the playback handlers (the toggle and the
  progress listener) neither read nor write \<open>isRecording\<close>: run from a state
  with the other session's field changed, each gives the same result with that field
  changed. So a recording starts during a playback exactly as it does from idle, and
  both sessions can be active at once.
\<close>

theorem sessions_do_not_exclude:
  "startRecording (s\<lparr>currentlyPlayingId := p\<rparr>) e1 = (startRecording s e1)\<lparr>currentlyPlayingId := p\<rparr>
   \<and> stopRecording (s\<lparr>currentlyPlayingId := p\<rparr>) e2 = (stopRecording s e2)\<lparr>currentlyPlayingId := p\<rparr>
   \<and> startRecording_screen (s\<lparr>currentlyPlayingId := p\<rparr>) e1
        = (startRecording_screen s e1)\<lparr>currentlyPlayingId := p\<rparr>
   \<and> stopRecording_screen (s\<lparr>currentlyPlayingId := p\<rparr>) e2
        = (stopRecording_screen s e2)\<lparr>currentlyPlayingId := p\<rparr>
   \<and> tick h now (s\<lparr>currentlyPlayingId := p\<rparr>) = (tick h now s)\<lparr>currentlyPlayingId := p\<rparr>
   \<and> playRecording (s\<lparr>isRecording := r\<rparr>) item e3 = (playRecording s item e3)\<lparr>isRecording := r\<rparr>
   \<and> onPlayBack c d (s\<lparr>isRecording := r\<rparr>) = (onPlayBack c d s)\<lparr>isRecording := r\<rparr>"
  by (intro conjI)
     (rule startRecording_playing stopRecording_playing startRecording_screen_playing
        stopRecording_screen_playing tick_playing playRecording_recording
        onPlayBack_recording)+

theorem sessions_do_not_exclude_witness:
  "startRecording (initial\<lparr>currentlyPlayingId := Some ''6201''\<rparr>) sample_start
     = (startRecording initial sample_start)\<lparr>currentlyPlayingId := Some ''6201''\<rparr>
   \<and> isRecording (startRecording initial sample_start)"
proof -
  have "isRecording (startRecording initial sample_start)"
    using sample_recording_state by (simp add: run_def toggleRecording_def initial_def)
  then show ?thesis
    using sessions_do_not_exclude
      [where s = initial and p = "Some ''6201''" and ?e1.0 = sample_start]
    by simp
qed

text \<open>
  Claim C1 as stated fails: record a clip, play it, and press the record button while
  it plays. The recording starts and the playback is still marked active.
\<close>

theorem both_sessions_active:
  "isRecording (run initial
      (sample_session @ [PressItem 0 sample_play] @ [PressRecord sample_start sample_stop]))
   \<and> currentlyPlayingId (run initial
      (sample_session @ [PressItem 0 sample_play] @ [PressRecord sample_start sample_stop]))
        = Some ''6201''"
  unfolding append_assoc [symmetric]
    run_append [of _ _ "[PressRecord sample_start sample_stop]"] sample_playing_state
  by (simp add: sample_defs)

section \<open>A recording from start to stop\<close>

text \<open>
  Claim C2. From any state of a run, a start that succeeds (permission granted, the
  recorder started), followed by the ticks of its timer and a stop that succeeds,
  appends exactly one record to the end of the list and leaves the records before it
  as they were. The record's name is "Recording " followed by its position in the
  list, counted from one. Its duration text is \<open>formatTime d\<close> for the elapsed time
  \<open>d\<close> of the last tick, and when the timer keeps its period (the callback runs at
  every multiple of the period after \<open>startTime\<close> up to the instant \<open>stopTime\<close> at
  which stop is pressed), \<open>d\<close> is at most the true elapsed time and less than 500 ms
  short of it.
\<close>

theorem start_then_stop_appends_one:
  assumes "s = run initial evs"
    and "fst (requestPermissions e1 s)" and "startRecorder_ok e1" and "stopRecorder_ok e2"
    and "s1 = startRecording s e1"
    and "timerRef s1 = Some h" and "map_of (intervals s1) h = Some (startTime, period)"
    and "startTime \<le> stopTime"
    and "n = nat ((stopTime - startTime) div period)"
    and "nows = map (\<lambda>k. startTime + period * int k) [1..<Suc n]"
    and "s3 = stopRecording (run s1 (map (TimerFires h) nows)) e2"
  shows "\<exists>r d. recordings s3 = recordings s @ [r]
           \<and> name r = ''Recording '' @ toString (int (length (recordings s3)))
           \<and> duration r = formatTime d
           \<and> d \<le> stopTime - startTime \<and> stopTime - startTime - d < 500"
proof -
  let ?s2 = "run s1 (map (TimerFires h) nows)"
  let ?d = "period * int n"
  have w: "well_formed s" using assms(1) by (simp add: well_formed_reachable)
  note st = startRecording_ok [OF w assms(2) assms(3), folded assms(5)]
  have h: "h = nextHandle s" using st(2) assms(6) by simp
  have tp: "startTime = now_timer e1" "period = 500"
    using assms(7) by (simp_all add: st(1) h)
  have s2: "?s2 = s1\<lparr>recordingDuration :=
               (if nows = [] then recordingDuration s1 else formatTime (last nows - startTime))\<rparr>"
    by (rule run_ticks [OF assms(7)])
  have f0: "formatTime 0 = ''00:00''" by (rule sample_times)
  have d: "recordingDuration ?s2 = formatTime ?d"
  proof (cases "n = 0")
    case True
    then have "nows = []" by (simp add: assms(10))
    with s2 True show ?thesis by (simp add: st(6) f0)
  next
    case False
    then have "0 < n" by simp
    from last_punctual [OF this, of "\<lambda>k. startTime + period * int k"]
    have l: "last nows = startTime + period * int n" by (simp add: assms(10))
    from False have "nows \<noteq> []" by (simp add: assms(10))
    with s2 l show ?thesis by simp
  qed
  have a: "isRecording ?s2" "currentRecordingPath ?s2 = Some (recordingPath e1)"
    "recordings ?s2 = recordings s"
    by (simp_all add: s2 st)
  have r: "recordings s3 = recordings s @
           [\<lparr>id_item = toString (now_id e2),
             name = ''Recording '' @ toString (int (length (recordings s)) + 1),
             duration = formatTime ?d, path = recordingPath e1,
             date = localeString e2, isPlaying = Some False\<rparr>]"
    unfolding assms(11)
    using stopRecording_ok [OF a(1) a(2) recordingPath_nonempty assms(4)]
    by (simp add: a(3) d)
  have n: "int (length (recordings s3)) = int (length (recordings s)) + 1"
    by (simp add: r)
  have q: "int n = (stopTime - startTime) div 500"
    using assms(8) by (simp add: assms(9) tp(2) pos_imp_zdiv_nonneg_iff)
  have sk: "?d \<le> stopTime - startTime" "stopTime - startTime - ?d < 500"
    unfolding q tp(2) by presburger+
  have nm: "''Recording '' @ toString (int (length (recordings s)) + 1)
              = ''Recording '' @ toString (int (length (recordings s3)))"
    by (simp only: n)
  show ?thesis
    by (rule exI [where x = "\<lparr>id_item = toString (now_id e2),
             name = ''Recording '' @ toString (int (length (recordings s)) + 1),
             duration = formatTime ?d, path = recordingPath e1,
             date = localeString e2, isPlaying = Some False\<rparr>"],
        rule exI [where x = ?d])
       (simp add: r [symmetric] nm [symmetric] sk del: append.simps)
qed

theorem start_then_stop_appends_one_witness:
  "\<exists>r d. recordings (stopRecording (run (startRecording initial sample_start)
              (map (TimerFires 1) [1502, 2002])) sample_stop) = [r]
        \<and> name r = ''Recording 1'' \<and> duration r = formatTime d
        \<and> d \<le> 2100 - 1002 \<and> 2100 - 1002 - d < 500"
proof -
  let ?s3 = "stopRecording (run (startRecording initial sample_start)
               (map (TimerFires 1) [1502, 2002])) sample_stop"
  have i: "initial = run initial []" by (simp add: run_def)
  have s1: "startRecording initial sample_start = run initial [PressRecord sample_start sample_stop]"
    by (simp add: run_def toggleRecording_def initial_def)
  have a: "fst (requestPermissions sample_start initial)" "startRecorder_ok sample_start"
    "stopRecorder_ok sample_stop"
    by (simp_all add: requestPermissions_def sample_start_def sample_stop_def)
  have t: "timerRef (startRecording initial sample_start) = Some 1"
    "map_of (intervals (startRecording initial sample_start)) 1 = Some (1002, 500)"
    by (simp_all add: s1 sample_recording_state)
  have l: "(1002::int) \<le> 2100" "(2::nat) = nat ((2100 - 1002) div 500)"
    by simp_all
  have m: "[1502, 2002] = map (\<lambda>k. 1002 + 500 * int k) [1..<Suc 2]"
    by (simp add: upt_rec)
  from start_then_stop_appends_one [OF i a refl t l m refl]
  obtain r d where r: "recordings ?s3 = recordings initial @ [r]"
    "name r = ''Recording '' @ toString (int (length (recordings ?s3)))"
    "duration r = formatTime d" "d \<le> 2100 - 1002" "2100 - 1002 - d < 500"
    by blast
  have e: "recordings initial = []" by (simp add: initial_def)
  have "recordings ?s3 = [r]" using r(1) by (simp add: e)
  moreover from this have "name r = ''Recording 1''" using r(2) by (simp add: sample_numbers)
  ultimately show ?thesis using r(3-5) by blast
qed

text \<open>
  The version without the timer appends the same record, with the duration computed
  when the stop is handled, from the clock and the stored start time.
\<close>

lemma start_then_stop_screen:
  assumes "fst (requestPermissions e1 s)" and "startRecorder_ok e1" and "stopRecorder_ok e2"
    and "now_started e1 \<noteq> 0"
  shows "recordings (stopRecording_screen (startRecording_screen s e1) e2) = recordings s @
           [\<lparr>id_item = toString (now_id e2),
             name = ''Recording '' @ toString (int (length (recordings s)) + 1),
             duration = formatTime (now_elapsed e2 - now_started e1),
             path = recordingPath e1, date = localeString e2, isPlaying = Some False\<rparr>]"
  using assms
  by (auto simp: startRecording_screen_def stopRecording_screen_def handler_defs Let_def
        recordingPath_nonempty
      split: permission_reply.splits if_splits)



text \<open>
  The version without the timer has no such text: its stop reads the clock and
  formats the time since the stored start.
\<close>

lemma stop_screen_reads_clock:
  assumes "isRecording s" and "currentRecordingPath s = Some p" and "p \<noteq> []"
    and "stopRecorder_ok e" and "recordingStartTime s = Some t" and "t \<noteq> 0"
  shows "duration (last (recordings (stopRecording_screen s e))) = formatTime (now_elapsed e - t)"
  using assms
  by (simp add: stopRecording_screen_def handler_defs Let_def)

section \<open>Playback\<close>

text \<open>
  Claim C4. While the listener is registered, a progress event whose
  \<open>currentPosition\<close> equals its \<open>duration\<close> ends the playback with no press of a
  button: the player is stopped, the listener is removed and
  \<open>currentlyPlayingId\<close> becomes null. An event whose two fields differ changes
  nothing.
\<close>

theorem completion_event_stops_playback:
  "playBackListener s \<Longrightarrow>
     (currentPosition = duration0 \<longrightarrow>
        currentlyPlayingId (step s (PlayBackEvent currentPosition duration0)) = None
        \<and> \<not> playBackListener (step s (PlayBackEvent currentPosition duration0))
        \<and> engineCalls (step s (PlayBackEvent currentPosition duration0)) =
            engineCalls s @ [StopPlayer, RemovePlayBackListener])
     \<and> (currentPosition \<noteq> duration0 \<longrightarrow>
          step s (PlayBackEvent currentPosition duration0) = s)"
  by (simp add: onPlayBack_def call_def)

theorem completion_event_stops_playback_witness:
  "playBackListener (run initial (sample_session @ [PressItem 0 sample_play]))
   \<and> currentlyPlayingId (step (run initial (sample_session @ [PressItem 0 sample_play]))
        (PlayBackEvent 5000 5000)) = None
   \<and> step (run initial (sample_session @ [PressItem 0 sample_play])) (PlayBackEvent 1200 5000)
        = run initial (sample_session @ [PressItem 0 sample_play])"
proof -
  let ?s = "run initial (sample_session @ [PressItem 0 sample_play])"
  have h: "playBackListener ?s" by (simp add: sample_playing_state)
  show ?thesis
    using completion_event_stops_playback [OF h, of 5000 5000]
      completion_event_stops_playback [OF h, of 1200 5000] h
    by simp
qed

text \<open>
  Claim C5, as the code has it. Toggling a record \<open>b\<close> other than the one that is
  playing first stops the player. If that stop succeeds, the listener is removed and
  the player is started on \<open>b\<close>'s file, in this order and once each; the state is
  then playing \<open>b\<close> when the start succeeds, and idle with the error alert when it
  fails. If the stop itself fails, no start is attempted, and the state is idle with
  the error alert.
\<close>

theorem switch_playback:
  assumes "truthy (currentlyPlayingId s)" and "currentlyPlayingId s \<noteq> Some (id_item b)"
  shows "(stopPlayer_ok e \<longrightarrow>
            engineCalls (playRecording s b e) =
              engineCalls s @ [StopPlayer, RemovePlayBackListener, StartPlayer (path b)]
                @ (if startPlayer_ok e then [AddPlayBackListener] else [])
            \<and> (startPlayer_ok e \<longrightarrow>
                  currentlyPlayingId (playRecording s b e) = Some (id_item b)
                  \<and> playBackListener (playRecording s b e)
                  \<and> alerts (playRecording s b e) = alerts s)
            \<and> (\<not> startPlayer_ok e \<longrightarrow>
                  currentlyPlayingId (playRecording s b e) = None
                  \<and> \<not> playBackListener (playRecording s b e)
                  \<and> alerts (playRecording s b e)
                      = alerts s @ [(''Error'', ''Failed to play recording'')]))
         \<and> (\<not> stopPlayer_ok e \<longrightarrow>
              engineCalls (playRecording s b e) = engineCalls s @ [StopPlayer]
              \<and> currentlyPlayingId (playRecording s b e) = None
              \<and> alerts (playRecording s b e)
                  = alerts s @ [(''Error'', ''Failed to play recording'')])"
  using assms
  by (simp add: playRecording_def handler_defs Let_def)

theorem switch_playback_witness:
  "currentlyPlayingId (run initial
      (sample_session @ sample_second_session @ [PressItem 0 sample_play])) = Some ''6201''
   \<and> currentlyPlayingId (playRecording
        (run initial (sample_session @ sample_second_session @ [PressItem 0 sample_play]))
        (sample_item ''9000'') sample_play) = Some ''9000''"
proof -
  let ?s = "run initial (sample_session @ sample_second_session @ [PressItem 0 sample_play])"
  have p: "currentlyPlayingId ?s = Some ''6201''"
    unfolding append_assoc [symmetric]
      run_append [of _ "sample_session @ sample_second_session"] sample_two_records_state
    by (simp add: sample_defs)
  have a: "truthy (currentlyPlayingId ?s)" by (simp add: p truthy_def)
  have b: "currentlyPlayingId ?s \<noteq> Some (id_item (sample_item ''9000''))"
    by (simp add: p sample_item_def)
  have c: "stopPlayer_ok sample_play" "startPlayer_ok sample_play"
    by (simp_all add: sample_play_def)
  show ?thesis
    using switch_playback [OF a b, of sample_play] c p by (simp add: sample_item_def)
qed

text \<open>
  Claim C5 as stated fails when the player's stop is rejected: with the first of two
  records playing, a toggle on the second makes one call, the stop, and none to start
  the second record.
\<close>

theorem failed_stop_starts_nothing:
  "engineCalls (run initial (sample_session @ sample_second_session @
       [PressItem 0 sample_play, PressItem 1 (sample_play\<lparr>stopPlayer_ok := False\<rparr>)])) =
     [StartRecorder ''/docs/recording_1000.m4a'', StopRecorder,
      StartRecorder ''/docs/recording_1000.m4a'', StopRecorder,
      StartPlayer ''/docs/recording_1000.m4a'', AddPlayBackListener, StopPlayer]
   \<and> currentlyPlayingId (run initial (sample_session @ sample_second_session @
       [PressItem 0 sample_play, PressItem 1 (sample_play\<lparr>stopPlayer_ok := False\<rparr>)])) = None"
  unfolding append_assoc [symmetric]
    run_append [of _ "sample_session @ sample_second_session"] sample_two_records_state
  by (simp add: sample_defs)

text \<open>
  Claim C6, as the code has it. From a state of a run with nothing playing, a toggle
  on a record of the list whose start succeeds, followed by a second toggle on the
  same record, ends with nothing playing. The two toggles make one call to start the
  player and one to stop it; the second toggle starts nothing.
\<close>

theorem toggle_same_item_twice:
  assumes "s = run initial evs" and "i < length (recordings s)"
    and "currentlyPlayingId s = None" and "startPlayer_ok e1"
  shows "currentlyPlayingId (step s (PressItem i e1)) = Some (id_item (recordings s ! i))
         \<and> currentlyPlayingId (run s [PressItem i e1, PressItem i e2]) = None
         \<and> engineCalls (run s [PressItem i e1, PressItem i e2]) =
             engineCalls s @ [StartPlayer (path (recordings s ! i)), AddPlayBackListener,
                              StopPlayer]
               @ (if stopPlayer_ok e2 then [RemovePlayBackListener] else [])"
proof -
  have w: "well_formed s" using assms(1) by (simp add: well_formed_reachable)
  with assms(2) have ne: "id_item (recordings s ! i) \<noteq> []"
    by (simp add: well_formed_def list_all_length)
  show ?thesis using assms(2-4) ne
    by (simp add: run_def playRecording_def handler_defs Let_def truthy_def)
qed

theorem toggle_same_item_twice_witness:
  "currentlyPlayingId (run initial sample_session) = None
   \<and> currentlyPlayingId
        (run (run initial sample_session) [PressItem 0 sample_play, PressItem 0 sample_play])
       = None"
proof -
  have a: "0 < length (recordings (run initial sample_session))"
    "currentlyPlayingId (run initial sample_session) = None"
    by (simp_all add: sample_session_state)
  have b: "startPlayer_ok sample_play" by (simp add: sample_play_def)
  show ?thesis
    using toggle_same_item_twice [OF refl a(1) a(2) b, of sample_play] a(2) by simp
qed

text \<open>
  Claim C6 as stated fails when the first toggle's start is rejected: the screen is
  idle again after it, so the second toggle is a new start, and when that one succeeds
  the record is playing.
\<close>

theorem second_toggle_starts_after_failed_first:
  "currentlyPlayingId (run initial (sample_session @
       [PressItem 0 (sample_play\<lparr>startPlayer_ok := False\<rparr>), PressItem 0 sample_play]))
     = Some ''6201''
   \<and> engineCalls (run initial (sample_session @
       [PressItem 0 (sample_play\<lparr>startPlayer_ok := False\<rparr>), PressItem 0 sample_play])) =
     [StartRecorder ''/docs/recording_1000.m4a'', StopRecorder,
      StartPlayer ''/docs/recording_1000.m4a'',
      StartPlayer ''/docs/recording_1000.m4a'', AddPlayBackListener]"
  unfolding run_append sample_session_state by (simp add: sample_defs)

section \<open>Stopping when nothing is recorded\<close>

text \<open>
  Claim C7, as the code has it. When no recording is active (or no path is stored),
  \<open>stopRecording\<close> returns at its first line: the state is the one it was called
  in, so the list is unchanged, no record is made, the recorder is not called, and no
  error is raised or shown. Both versions of the screen do the same.
\<close>

theorem stop_when_idle_is_silent:
  "\<not> isRecording s \<or> \<not> truthy (currentRecordingPath s) \<Longrightarrow>
     stopRecording s e = s \<and> stopRecording_screen s e = s"
  by (auto simp: stopRecording_def stopRecording_screen_def truthy_def split: option.splits)

theorem stop_when_idle_is_silent_witness:
  "\<not> isRecording initial \<and> stopRecording initial sample_stop = initial
   \<and> stopRecording_screen initial sample_stop = initial"
proof -
  have h: "\<not> isRecording initial" by (simp add: initial_def)
  then have "\<not> isRecording initial \<or> \<not> truthy (currentRecordingPath initial)" by simp
  from stop_when_idle_is_silent [OF this, of sample_stop] h show ?thesis by simp
qed

text \<open>
  Claim C7 as stated fails in its first part: a stop in the initial state reports no
  error. It shows no alert, and it makes no call.
\<close>

theorem stop_when_idle_reports_nothing:
  "alerts (stopRecording initial sample_stop) = []
   \<and> engineCalls (stopRecording initial sample_stop) = []"
  by (simp add: stopRecording_def initial_def)

section \<open>The duration timer\<close>

text \<open>
  Claim C8, as the code has it. In every state of a run an interval is scheduled
  exactly when a recording is active, and never more than one. A start that succeeds
  schedules it, with a period of 500 ms; a stop that succeeds clears it. A stop whose
  recorder call fails does not end the recording: \<open>isRecording\<close> stays true and the
  interval stays scheduled.
\<close>

theorem timer_alive_iff_recording:
  assumes "s = run initial evs"
  shows "(isRecording s \<longleftrightarrow> intervals s \<noteq> []) \<and> length (intervals s) \<le> 1
     \<and> (\<not> isRecording s \<and> fst (requestPermissions e1 s) \<and> startRecorder_ok e1 \<longrightarrow>
          isRecording (startRecording s e1)
          \<and> intervals (startRecording s e1) = [(nextHandle s, now_timer e1, 500)])
     \<and> (isRecording s \<and> stopRecorder_ok e2 \<longrightarrow>
          \<not> isRecording (stopRecording s e2) \<and> intervals (stopRecording s e2) = [])
     \<and> (isRecording s \<and> \<not> stopRecorder_ok e2 \<longrightarrow>
          isRecording (stopRecording s e2) \<and> intervals (stopRecording s e2) = intervals s)"
proof -
  have w: "well_formed s" using assms by (simp add: well_formed_reachable)
  have a: "(isRecording s \<longleftrightarrow> intervals s \<noteq> []) \<and> length (intervals s) \<le> 1"
    using well_formed_timer [OF w] by simp
  have b: "fst (requestPermissions e1 s) \<and> startRecorder_ok e1 \<longrightarrow>
          isRecording (startRecording s e1)
          \<and> intervals (startRecording s e1) = [(nextHandle s, now_timer e1, 500)]"
    using startRecording_ok [OF w] by simp
  have c: "isRecording s \<and> stopRecorder_ok e2 \<longrightarrow>
          \<not> isRecording (stopRecording s e2) \<and> intervals (stopRecording s e2) = []"
    using w
    by (auto simp: well_formed_def stopRecording_def handler_defs Let_def truthy_def
        split: option.splits)
  have d: "isRecording s \<and> \<not> stopRecorder_ok e2 \<longrightarrow>
          isRecording (stopRecording s e2) \<and> intervals (stopRecording s e2) = intervals s"
    by (auto simp: stopRecording_def handler_defs Let_def split: option.splits)
  show ?thesis using a b c d by blast
qed

theorem timer_alive_iff_recording_witness:
  "isRecording (run initial [PressRecord sample_start sample_stop])
   \<and> intervals (run initial [PressRecord sample_start sample_stop]) \<noteq> []
   \<and> intervals (stopRecording (run initial [PressRecord sample_start sample_stop]) sample_stop)
       = []"
proof -
  have a: "isRecording (run initial [PressRecord sample_start sample_stop])"
    by (simp add: sample_recording_state)
  have b: "stopRecorder_ok sample_stop" by (simp add: sample_stop_def)
  show ?thesis
    using timer_alive_iff_recording
      [OF refl, of "[PressRecord sample_start sample_stop]" sample_start sample_stop] a b
    by simp
qed

text \<open>
  Claim C8 as stated fails for a stop that the recorder rejects: the interval of the
  recording is still scheduled after it.
\<close>

theorem failed_stop_keeps_timer:
  "intervals (run initial ([PressRecord sample_start sample_stop] @
       [PressRecord sample_start (sample_stop\<lparr>stopRecorder_ok := False\<rparr>)]))
     = [(1, 1002, 500)]
   \<and> alerts (run initial ([PressRecord sample_start sample_stop] @
       [PressRecord sample_start (sample_stop\<lparr>stopRecorder_ok := False\<rparr>)]))
     = [(''Error'', ''Failed to stop recording'')]"
  unfolding run_append sample_recording_state by (simp add: sample_defs)

section \<open>What playback leaves alone\<close>

text \<open>
  Claim C10. Whatever the state, the item and the outcome of the player's calls,
  \<open>playRecording\<close> returns the list of recordings it was given, with every record
  as it was. Of the component's state it changes only \<open>currentlyPlayingId\<close> and
  \<open>isLoading\<close>, which is false again when it returns.
\<close>

theorem playRecording_leaves_list:
  "recordings (playRecording s item e) = recordings s
   \<and> isRecording (playRecording s item e) = isRecording s
   \<and> currentRecordingPath (playRecording s item e) = currentRecordingPath s
   \<and> recordingStartTime (playRecording s item e) = recordingStartTime s
   \<and> isRecordingSheetVisible (playRecording s item e) = isRecordingSheetVisible s
   \<and> recordingDuration (playRecording s item e) = recordingDuration s
   \<and> timerRef (playRecording s item e) = timerRef s
   \<and> intervals (playRecording s item e) = intervals s
   \<and> \<not> isLoading (playRecording s item e)"
  by (simp add: playRecording_def handler_defs Let_def)

theorem playRecording_leaves_list_witness:
  "recordings (playRecording (run initial sample_session) (sample_item ''6201'') sample_play)
     = recordings (run initial sample_session)
   \<and> recordings (run initial sample_session) \<noteq> []"
  using playRecording_leaves_list [of "run initial sample_session" "sample_item ''6201''" sample_play]
  by (simp add: sample_session_state)

end
